theory Spec2Isabelle
  imports Main "HOL-Library.AList"
begin

section \<open>Errors (errors package, http/http.error.ts)\<close>

text \<open>
  A \<open>Record<string, unknown>\<close> is kept as an association list of its own properties.
  The default message of an \<open>HttpError\<close> is \<open>HttpStatusMap[statusCode]\<close>; the table
  (http.status.map.ts) is not among the sources, so the lookup is kept unevaluated as
  \<open>StatusMessage statusCode\<close>.
\<close>

type_synonym jsrecord = "(string \<times> string) list"

datatype message = Message string | StatusMessage nat

datatype error =
    Error (message: message)
  | HttpError (statusCode: nat) (message: message)
      (details: "jsrecord option") (headers: "jsrecord option")
      (cause: "error option") (internalDetails: "jsrecord option")

text \<open>\<open>httpError(statusCode, message?)\<close>: \<open>new HttpError(statusCode, message)\<close>, whose
  constructor calls \<open>super(message ?? HttpStatusMap[statusCode])\<close> and leaves the four
  optional properties unset.\<close>

definition httpError :: "nat \<Rightarrow> string option \<Rightarrow> error" where
  "httpError code msg =
     HttpError code (case msg of Some m \<Rightarrow> Message m | None \<Rightarrow> StatusMessage code)
       None None None None"

text \<open>\<open>withInternalDetails\<close> is a method of \<open>HttpError\<close>: it sets the property and
  returns the same object. A plain \<open>Error\<close> has no such method; the model leaves it as
  it is.\<close>

fun withInternalDetails :: "jsrecord \<Rightarrow> error \<Rightarrow> error" where
  "withInternalDetails d (HttpError c m ds hs ca _) = HttpError c m ds hs ca (Some d)"
| "withInternalDetails d (Error m) = Error m"


section \<open>Multipart data (multipart package, types.ts)\<close>

text \<open>A stream object is known by its identity only. The property \<open>value\<close> of a field
  is the selector \<open>val\<close>.\<close>

type_synonym stream = nat

datatype MultipartData =
    FieldData (val: string) (nameTruncated: bool) (valueTruncated: bool)
      (encoding: string) (mimeType: string)
  | FileData (stream: stream) (filename: string) (encoding: string) (mimeType: string)

fun isMultipartFieldData :: "MultipartData \<Rightarrow> bool" where
  "isMultipartFieldData (FieldData _ _ _ _ _) = True"
| "isMultipartFieldData (FileData _ _ _ _) = False"

fun isMultipartFileData :: "MultipartData \<Rightarrow> bool" where
  "isMultipartFileData (FileData _ _ _ _) = True"
| "isMultipartFileData (FieldData _ _ _ _ _) = False"

text \<open>A value of the result map is \<open>MultipartData | MultipartData[]\<close>. The JavaScript
  \<open>Map\<close> keeps its keys in insertion order, \<open>set\<close> on a present key keeps the key's place:
  an association list under \<open>AList.update\<close>.\<close>

datatype entry = Single MultipartData | Many "MultipartData list"

type_synonym fieldmap = "(string \<times> entry) list"

text \<open>\<open>setData\<close> (busboy.wrapper.ts and multipart.related.parser.ts, lines 108-117, the
  same text in both): \<open>prev == null\<close> holds exactly for an absent key, since no stored
  value is null.\<close>

definition setData :: "string \<Rightarrow> MultipartData \<Rightarrow> fieldmap \<Rightarrow> fieldmap" where
  "setData name data fs =
     (case map_of fs name of
        None \<Rightarrow> AList.update name (Single data) fs
      | Some (Many prev) \<Rightarrow> AList.update name (Many (prev @ [data])) fs
      | Some (Single prev) \<Rightarrow> AList.update name (Many [prev, data]) fs)"

text \<open>The parts recorded under one name, and the entry that a given non-empty run of
  parts is stored as.\<close>

definition recorded :: "string \<Rightarrow> (string \<times> MultipartData) list \<Rightarrow> MultipartData list" where
  "recorded name ps = map snd (filter (\<lambda>p. fst p = name) ps)"

fun entry_of :: "MultipartData list \<Rightarrow> entry option" where
  "entry_of [] = None"
| "entry_of [v] = Some (Single v)"
| "entry_of vs = Some (Many vs)"

definition setAll :: "(string \<times> MultipartData) list \<Rightarrow> fieldmap \<Rightarrow> fieldmap" where
  "setAll ps fs = fold (\<lambda>p. setData (fst p) (snd p)) ps fs"


section \<open>Limits (types.ts, multipart.body.ts)\<close>

text \<open>The keys of \<open>MultipartLimits\<close>; each property is optional and of type
  \<open>number | undefined\<close>, so an object maps some of the keys to a number or to
  \<open>undefined\<close> (\<open>None\<close>). The keys \<open>fields\<close>, \<open>files\<close> and \<open>parts\<close> are
  \<open>fieldsKey\<close>, \<open>filesKey\<close> and \<open>partsKey\<close>.\<close>

datatype limit_key =
  fieldNameSize | fieldSize | fieldsKey | fileSize | filesKey | partsKey | headerPairs | headerSize

type_synonym MultipartLimits = "limit_key \<rightharpoonup> nat option"

definition MAX_FILE_SIZE :: nat where
  "MAX_FILE_SIZE = 20 * 1024 * 1024"

text \<open>Object spread \<open>{ ...a, ...b }\<close>: the own properties of \<open>a\<close>, then those of \<open>b\<close>
  over them; spreading \<open>undefined\<close> adds nothing.\<close>

definition spread :: "MultipartLimits \<Rightarrow> MultipartLimits option \<Rightarrow> MultipartLimits" where
  "spread a b = a ++ (case b of None \<Rightarrow> Map.empty | Some m \<Rightarrow> m)"


section \<open>Event emitters\<close>

text \<open>
  Both parsers are event emitters of the platform (\<open>Busboy\<close> and \<open>Writable\<close> extend
  \<open>EventEmitter\<close>), and so is the request. An emitter is the list of its registrations in
  the order they were made. \<open>on\<close> appends one; \<open>removeListener\<close> removes the most
  recently added registration of that very function for that event, if there is one;
  \<open>emit\<close> calls the functions registered for the event, in order.

  The functions that the two classes register, or name in a \<open>removeListener\<close> call:
  their prototype methods, and the arrow function \<open>() => this.cleanup\<close> of
  \<open>BusboyWrapper\<close>'s constructor, which is a function object of its own.
\<close>

datatype listener =
  OnField | OnFile | OnEnd | OnPartsLimit | OnFilesLimit | OnFieldsLimit | Cleanup | CloseArrow

type_synonym emitter = "(string \<times> listener) list"

definition on :: "string \<Rightarrow> listener \<Rightarrow> emitter \<Rightarrow> emitter" where
  "on ev l em = em @ [(ev, l)]"

definition removeListener :: "string \<Rightarrow> listener \<Rightarrow> emitter \<Rightarrow> emitter" where
  "removeListener ev l em = rev (remove1 (ev, l) (rev em))"

definition listenersOf :: "string \<Rightarrow> emitter \<Rightarrow> listener list" where
  "listenersOf ev em = map snd (filter (\<lambda>p. fst p = ev) em)"

text \<open>The events with their arguments: the tokenizer's events on the parser itself, and
  \<open>close\<close> on the request.\<close>

datatype event =
    Field string string bool bool string string
  | File string stream string string string
  | Finish
  | ErrorEvent error
  | PartsLimit
  | FilesLimit
  | FieldsLimit
  | Close

fun eventName :: "event \<Rightarrow> string" where
  "eventName (Field _ _ _ _ _ _) = ''field''"
| "eventName (File _ _ _ _ _) = ''file''"
| "eventName Finish = ''finish''"
| "eventName (ErrorEvent _) = ''error''"
| "eventName PartsLimit = ''partsLimit''"
| "eventName FilesLimit = ''filesLimit''"
| "eventName FieldsLimit = ''fieldsLimit''"
| "eventName Close = ''close''"


section \<open>The parser object (busboy.wrapper.ts, multipart.related.parser.ts)\<close>

text \<open>
  A promise made by \<open>parse\<close> is pending, resolved with the map or rejected with an error.
  A file handler is known by its identity; a call of it is recorded with its five
  arguments. The handler's own work is not part of the parser: the settlement of the
  promise it returned arrives later, as an action of its own.
\<close>

datatype settlement = Pending | Resolved fieldmap | Rejected error

type_synonym FileHandler = nat

datatype call = Call FileHandler string (callStream: stream) string string string

text \<open>
  The state of one parser object and of what it acts on:
  \<^item> \<open>limits\<close>: the limits handed to the tokenizer's constructor;
  \<^item> \<open>listeners\<close>, \<open>reqListeners\<close>: the registrations on the parser and on the request;
  \<^item> \<open>fieldsMap\<close>, \<open>fileHandler\<close>: the private properties \<open>fields\<close> and \<open>fileHandler\<close>;
  \<^item> \<open>promises\<close>: the promises made by \<open>parse\<close>, oldest first. The properties
    \<open>resolve\<close> and \<open>reject\<close> hold the resolving functions of the last one, and the
    empty methods of lines 149-150 while there is none;
  \<^item> \<open>piped\<close>: how often \<open>req.pipe(this)\<close> ran;
  \<^item> \<open>calls\<close>: the calls of the file handler, oldest first, and \<open>settled\<close>: the positions
    of those whose promise has settled;
  \<^item> \<open>nullStream\<close>: the streams piped into the null stream;
  \<^item> \<open>cleanups\<close>: how often \<open>cleanup\<close> ran;
  \<^item> \<open>uncaught\<close>: the errors thrown by \<open>emit\<close> for an \<open>error\<close> event without listener.
\<close>

record parser =
  limits :: "MultipartLimits option"
  listeners :: emitter
  reqListeners :: emitter
  fieldsMap :: fieldmap
  fileHandler :: "FileHandler option"
  promises :: "settlement list"
  piped :: nat
  calls :: "call list"
  settled :: "nat list"
  nullStream :: "stream list"
  cleanups :: nat
  uncaught :: "error list"

text \<open>The constructors. \<open>BusboyWrapper\<close> registers the arrow function on the request and
  seven methods on itself (lines 62-70); \<open>MultipartRelatedParser\<close> only calls \<open>super()\<close>
  (lines 66-68).\<close>

definition BusboyWrapper_new :: "MultipartLimits option \<Rightarrow> parser" where
  "BusboyWrapper_new lim =
     \<lparr> limits = lim,
       listeners =
         (on ''fieldsLimit'' OnFieldsLimit \<circ> on ''filesLimit'' OnFilesLimit
          \<circ> on ''partsLimit'' OnPartsLimit \<circ> on ''error'' OnEnd \<circ> on ''finish'' OnEnd
          \<circ> on ''file'' OnFile \<circ> on ''field'' OnField) [],
       reqListeners = on ''close'' CloseArrow [],
       fieldsMap = [], fileHandler = None, promises = [], piped = 0,
       calls = [], settled = [], nullStream = [], cleanups = 0, uncaught = [] \<rparr>"

definition MultipartRelatedParser_new :: parser where
  "MultipartRelatedParser_new =
     \<lparr> limits = None, listeners = [], reqListeners = [],
       fieldsMap = [], fileHandler = None, promises = [], piped = 0,
       calls = [], settled = [], nullStream = [], cleanups = 0, uncaught = [] \<rparr>"

text \<open>The methods, lines 93-206; the two classes have the same text there.\<close>

definition parse :: "FileHandler option \<Rightarrow> parser \<Rightarrow> parser" where
  "parse fh s =
     s\<lparr> fileHandler := fh, promises := promises s @ [Pending], piped := Suc (piped s) \<rparr>"

text \<open>The resolving functions of a promise act on a pending promise only.\<close>

definition settle :: "settlement \<Rightarrow> settlement list \<Rightarrow> settlement list" where
  "settle r ps = (if ps \<noteq> [] \<and> last ps = Pending then butlast ps @ [r] else ps)"

definition resolve :: "fieldmap \<Rightarrow> parser \<Rightarrow> parser" where
  "resolve v s = s\<lparr> promises := settle (Resolved v) (promises s) \<rparr>"

definition reject :: "error \<Rightarrow> parser \<Rightarrow> parser" where
  "reject e s = s\<lparr> promises := settle (Rejected e) (promises s) \<rparr>"

definition cleanup :: "parser \<Rightarrow> parser" where
  "cleanup s =
     s\<lparr> reqListeners := removeListener ''close'' Cleanup (reqListeners s),
        listeners :=
          (removeListener ''finish'' OnEnd \<circ> removeListener ''fieldsLimit'' OnFieldsLimit
           \<circ> removeListener ''filesLimit'' OnFilesLimit
           \<circ> removeListener ''partsLimit'' OnPartsLimit
           \<circ> removeListener ''error'' OnEnd \<circ> removeListener ''file'' OnFile
           \<circ> removeListener ''field'' OnField) (listeners s),
        cleanups := Suc (cleanups s) \<rparr>"

text \<open>\<open>onEnd(err?)\<close>: \<open>None\<close> is a call without argument, or with \<open>undefined\<close>.\<close>

definition onEnd :: "error option \<Rightarrow> parser \<Rightarrow> parser" where
  "onEnd err s =
     (let s' = cleanup s
      in case err of Some e \<Rightarrow> reject e s' | None \<Rightarrow> resolve (fieldsMap s') s')"

definition onField ::
  "string \<Rightarrow> string \<Rightarrow> bool \<Rightarrow> bool \<Rightarrow> string \<Rightarrow> string \<Rightarrow> parser \<Rightarrow> parser" where
  "onField name v nt vt enc mt s =
     s\<lparr> fieldsMap := setData name (FieldData v nt vt enc mt) (fieldsMap s) \<rparr>"

definition onFile ::
  "string \<Rightarrow> stream \<Rightarrow> string \<Rightarrow> string \<Rightarrow> string \<Rightarrow> parser \<Rightarrow> parser" where
  "onFile fieldname st fname enc mt s =
     (let s' = s\<lparr> fieldsMap := setData fieldname (FileData st fname enc mt) (fieldsMap s) \<rparr>
      in case fileHandler s' of
           None \<Rightarrow> s'
         | Some fh \<Rightarrow> s'\<lparr> calls := calls s' @ [Call fh fieldname st fname enc mt] \<rparr>)"

text \<open>The two callbacks that \<open>onFile\<close> attaches to the promise of call number \<open>i\<close>
  (lines 139-145); the reason of a rejection is any value, \<open>None\<close> is \<open>undefined\<close>.\<close>

definition onFulfilled :: "nat \<Rightarrow> parser \<Rightarrow> parser" where
  "onFulfilled i s = onEnd None s"

definition onRejected :: "nat \<Rightarrow> error option \<Rightarrow> parser \<Rightarrow> parser" where
  "onRejected i reason s =
     onEnd reason (s\<lparr> nullStream := nullStream s @ [callStream (calls s ! i)] \<rparr>)"

definition onPartsLimit :: "parser \<Rightarrow> parser" where
  "onPartsLimit s =
     onEnd (Some (withInternalDetails [(''reason'', ''Reached parts limit'')]
                    (httpError 413 None))) s"

definition onFilesLimit :: "parser \<Rightarrow> parser" where
  "onFilesLimit s =
     onEnd (Some (withInternalDetails [(''reason'', ''Reached files limit'')]
                    (httpError 413 None))) s"

definition onFieldsLimit :: "parser \<Rightarrow> parser" where
  "onFieldsLimit s =
     onEnd (Some (withInternalDetails [(''reason'', ''Reached fields limit'')]
                    (httpError 413 None))) s"

text \<open>
  Calling a registered function with the arguments of an event. \<open>onEnd\<close> takes the first
  argument: the error of an \<open>error\<close> event, nothing for \<open>finish\<close>. The arrow function
  \<open>() => this.cleanup\<close> reads the property and calls nothing. A function is registered
  for the events of the constructor only; the other pairs do not occur and leave the
  state as it is.
\<close>

fun runListener :: "listener \<Rightarrow> event \<Rightarrow> parser \<Rightarrow> parser" where
  "runListener OnField (Field name v nt vt enc mt) s = onField name v nt vt enc mt s"
| "runListener OnFile (File fieldname st fname enc mt) s = onFile fieldname st fname enc mt s"
| "runListener OnEnd Finish s = onEnd None s"
| "runListener OnEnd (ErrorEvent e) s = onEnd (Some e) s"
| "runListener OnPartsLimit PartsLimit s = onPartsLimit s"
| "runListener OnFilesLimit FilesLimit s = onFilesLimit s"
| "runListener OnFieldsLimit FieldsLimit s = onFieldsLimit s"
| "runListener Cleanup Close s = cleanup s"
| "runListener CloseArrow Close s = s"
| "runListener _ _ s = s"

text \<open>\<open>emit\<close> on the parser. An \<open>error\<close> event without listener is thrown by the
  platform instead.\<close>

definition emit :: "event \<Rightarrow> parser \<Rightarrow> parser" where
  "emit ev s =
     (let ls = listenersOf (eventName ev) (listeners s)
      in case (ls, ev) of
           ([], ErrorEvent e) \<Rightarrow> s\<lparr> uncaught := uncaught s @ [e] \<rparr>
         | _ \<Rightarrow> fold (\<lambda>l. runListener l ev) ls s)"

text \<open>\<open>emit('close')\<close> on the request.\<close>

definition reqClose :: "parser \<Rightarrow> parser" where
  "reqClose s = fold (\<lambda>l. runListener l Close) (listenersOf ''close'' (reqListeners s)) s"

text \<open>
  What happens to a parser, one action at a time: a call of \<open>parse\<close>, an event of the
  tokenizer, the request closing, and the promise of handler call \<open>i\<close> fulfilling or
  rejecting. Only a call that was made and has not settled can settle.
\<close>

datatype action =
    Parse "FileHandler option"
  | Emit event
  | ReqClose
  | Fulfil nat
  | Reject nat "error option"

definition inFlight :: "nat \<Rightarrow> parser \<Rightarrow> bool" where
  "inFlight i s = (i < length (calls s) \<and> i \<notin> set (settled s))"

fun step :: "action \<Rightarrow> parser \<Rightarrow> parser" where
  "step (Parse fh) s = parse fh s"
| "step (Emit ev) s = emit ev s"
| "step ReqClose s = reqClose s"
| "step (Fulfil i) s =
     (if inFlight i s then onFulfilled i (s\<lparr> settled := settled s @ [i] \<rparr>) else s)"
| "step (Reject i reason) s =
     (if inFlight i s then onRejected i reason (s\<lparr> settled := settled s @ [i] \<rparr>) else s)"

definition run :: "action list \<Rightarrow> parser \<Rightarrow> parser" where
  "run as s = fold step as s"


section \<open>MultipartBody (multipart.body.ts)\<close>

text \<open>The constructor's default parameter applies when the argument is omitted or
  \<open>undefined\<close>; the private property \<open>_limits\<close> is \<open>instanceLimits\<close>. \<open>parse\<close> makes a
  new \<open>BusboyWrapper\<close> with the merged limits and calls its \<open>parse\<close>.\<close>

record MultipartBody =
  instanceLimits :: MultipartLimits

definition MultipartBody_new :: "MultipartLimits option \<Rightarrow> MultipartBody" where
  "MultipartBody_new lim =
     \<lparr> instanceLimits = (case lim of
                           None \<Rightarrow> [filesKey \<mapsto> Some 1, fileSize \<mapsto> Some MAX_FILE_SIZE]
                         | Some l \<Rightarrow> l) \<rparr>"

definition MultipartBody_parse ::
  "FileHandler option \<Rightarrow> MultipartLimits option \<Rightarrow> MultipartBody \<Rightarrow> parser" where
  "MultipartBody_parse fh lim body =
     parse fh (BusboyWrapper_new (Some (spread (instanceLimits body) lim)))"


section \<open>Vocabulary of the properties\<close>

text \<open>The part events and the terminal events of the tokenizer.\<close>

fun isPart :: "event \<Rightarrow> bool" where
  "isPart (Field _ _ _ _ _ _) = True"
| "isPart (File _ _ _ _ _) = True"
| "isPart _ = False"

fun isTerminal :: "event \<Rightarrow> bool" where
  "isTerminal Finish = True"
| "isTerminal (ErrorEvent _) = True"
| "isTerminal PartsLimit = True"
| "isTerminal FilesLimit = True"
| "isTerminal FieldsLimit = True"
| "isTerminal _ = False"




text \<open>The registrations that \<open>BusboyWrapper\<close>'s constructor leaves on the parser.\<close>

definition registered :: emitter where
  "registered =
     [(''field'', OnField), (''file'', OnFile), (''finish'', OnEnd), (''error'', OnEnd),
      (''partsLimit'', OnPartsLimit), (''filesLimit'', OnFilesLimit),
      (''fieldsLimit'', OnFieldsLimit)]"

text \<open>The three errors of lines 168, 178 and 188, as values.\<close>

definition limitError :: "string \<Rightarrow> error" where
  "limitError reason =
     HttpError 413 (StatusMessage 413) None None None (Some [(''reason'', reason)])"


text \<open>
  States of a parser, as the proofs tell them apart:
  \<^item> \<open>reqQuiet\<close>: the request carries at most the constructor's arrow function;
  \<^item> \<open>pristine\<close>: constructed, \<open>parse\<close> not yet called, nothing cleaned up;
  \<^item> \<open>started\<close>: one \<open>parse\<close> call, its promise pending, the listeners in place,
    nothing cleaned up, settled or thrown;
  \<^item> \<open>finished\<close>: the one promise is settled and no listener is left on the parser;
  \<^item> \<open>detached\<close>: no listener left on the parser, no handler call made, every
    promise pending;
  \<^item> \<open>coherent\<close>: the listeners are all in place and every promise is pending, or no
    listener is left.
\<close>

fun isPending :: "settlement \<Rightarrow> bool" where
  "isPending Pending = True"
| "isPending _ = False"

definition reqQuiet :: "parser \<Rightarrow> bool" where
  "reqQuiet s = (reqListeners s = [(''close'', CloseArrow)] \<or> reqListeners s = [])"

definition pristine :: "parser \<Rightarrow> bool" where
  "pristine s = (promises s = [] \<and> calls s = [] \<and> fileHandler s = None \<and> reqQuiet s
                 \<and> listeners s = registered \<and> cleanups s = 0 \<and> uncaught s = [])"

definition detached :: "parser \<Rightarrow> bool" where
  "detached s = (listeners s = [] \<and> calls s = [] \<and> reqQuiet s
                 \<and> list_all isPending (promises s))"



definition coherent :: "parser \<Rightarrow> bool" where
  "coherent s = (reqQuiet s
                 \<and> (listeners s = registered \<and> list_all isPending (promises s)
                     \<or> listeners s = []))"

lemmas model_defs =
  run_def BusboyWrapper_new_def MultipartRelatedParser_new_def parse_def emit_def reqClose_def
  on_def removeListener_def listenersOf_def onField_def onFile_def onEnd_def cleanup_def
  resolve_def reject_def settle_def onFulfilled_def onRejected_def inFlight_def setData_def
  onPartsLimit_def onFilesLimit_def onFieldsLimit_def httpError_def limitError_def
  registered_def Let_def


section \<open>The result map\<close>

lemma setData_same:
  assumes "map_of fs name = entry_of vs"
  shows "map_of (setData name d fs) name = entry_of (vs @ [d])"
proof (cases vs rule: entry_of.cases)
  case 1
  with assms show ?thesis by (simp add: setData_def update_conv')
next
  case (2 v)
  with assms show ?thesis by (simp add: setData_def update_conv')
next
  case (3 v w ws)
  with assms show ?thesis by (simp add: setData_def update_conv')
qed

lemma setData_other:
  "k \<noteq> name \<Longrightarrow> map_of (setData name d fs) k = map_of fs k"
  by (simp add: setData_def update_conv' split: option.split entry.split)

lemma setAll_snoc: "setAll (ps @ [p]) fs = setData (fst p) (snd p) (setAll ps fs)"
  by (simp add: setAll_def)

lemma setAll_entry: "map_of (setAll ps []) k = entry_of (recorded k ps)"
proof (induction ps rule: rev_induct)
  case Nil
  show ?case by (simp add: setAll_def recorded_def)
next
  case (snoc p ps)
  show ?case
  proof (cases "k = fst p")
    case True
    have "recorded k (ps @ [p]) = recorded k ps @ [snd p]"
      using True by (simp add: recorded_def)
    with True snoc show ?thesis by (simp add: setAll_snoc setData_same)
  next
    case False
    then have "recorded k (ps @ [p]) = recorded k ps"
      by (auto simp add: recorded_def)
    with False snoc show ?thesis by (simp add: setAll_snoc setData_other)
  qed
qed

text \<open>
  Claim C4. Starting from the empty map, after any run of \<open>setData\<close> calls the entry of a
  name is determined by the parts recorded under that name, in arrival order: nothing
  for none, the bare part for one, the list of all of them for two or more. One more
  part under the name extends that run at its end. So one part \<open>v1\<close> gives the bare
  \<open>v1\<close>, two parts \<open>v1, v2\<close> give exactly the list \<open>[v1, v2]\<close>, and a third is appended.
  \<open>onField\<close> and \<open>onFile\<close> record their part through \<open>setData\<close>.
\<close>

theorem setData_merge_law:
  "map_of (setAll ps []) name = entry_of (recorded name ps)
   \<and> map_of (setData name v (setAll ps [])) name = entry_of (recorded name ps @ [v])
   \<and> setAll [(name, v1)] [] = [(name, Single v1)]
   \<and> setAll [(name, v1), (name, v2)] [] = [(name, Many [v1, v2])]
   \<and> setAll [(name, v1), (name, v2), (name, v3)] [] = [(name, Many [v1, v2, v3])]
   \<and> fieldsMap (onField name x nt vt enc mt s)
       = setData name (FieldData x nt vt enc mt) (fieldsMap s)
   \<and> fieldsMap (onFile name st fname enc mt s)
       = setData name (FileData st fname enc mt) (fieldsMap s)"
proof -
  have "fieldsMap (onFile name st fname enc mt s)
          = setData name (FileData st fname enc mt) (fieldsMap s)"
    by (simp add: onFile_def Let_def split: option.split)
  moreover have "setAll [(name, v1), (name, v2), (name, v3)] [] = [(name, Many [v1, v2, v3])]"
    by (simp add: setAll_def setData_def)
  moreover have "setAll [(name, v1), (name, v2)] [] = [(name, Many [v1, v2])]"
    by (simp add: setAll_def setData_def)
  moreover have "setAll [(name, v1)] [] = [(name, Single v1)]"
    by (simp add: setAll_def setData_def)
  ultimately show ?thesis
    by (simp add: setAll_entry setData_same onField_def)
qed


section \<open>Limits of a parse call\<close>

text \<open>
  Claim C8. \<open>MultipartBody.parse\<close> hands the tokenizer the instance's limits with the
  per-call limits spread over them: a key of the per-call object takes its value from
  there, every other key keeps the instance's value. Without per-call limits the
  instance's limits are handed on as they are. The instance's limits are those given to
  the constructor, and \<open>files = 1\<close>, \<open>fileSize = 20 MB\<close> (20971520 bytes) and nothing
  else when none were given.
\<close>

theorem limits_merge:
  "limits (MultipartBody_parse fh (Some ov) body)
     = Some (\<lambda>k. case ov k of Some v \<Rightarrow> Some v | None \<Rightarrow> instanceLimits body k)
   \<and> limits (MultipartBody_parse fh None body) = Some (instanceLimits body)
   \<and> instanceLimits (MultipartBody_new (Some d)) = d
   \<and> instanceLimits (MultipartBody_new None)
       = (\<lambda>k. if k = filesKey then Some (Some 1)
              else if k = fileSize then Some (Some 20971520) else None)"
  by (auto simp add: MultipartBody_parse_def MultipartBody_new_def parse_def
        BusboyWrapper_new_def spread_def map_add_def MAX_FILE_SIZE_def fun_eq_iff)


section \<open>Steps of the parser\<close>

lemma new_listeners: "listeners (BusboyWrapper_new lim) = registered"
  by (simp add: BusboyWrapper_new_def registered_def on_def)

lemma listenersOf_registered:
  "listenersOf ''field'' registered = [OnField]"
  "listenersOf ''file'' registered = [OnFile]"
  "listenersOf ''finish'' registered = [OnEnd]"
  "listenersOf ''error'' registered = [OnEnd]"
  "listenersOf ''partsLimit'' registered = [OnPartsLimit]"
  "listenersOf ''filesLimit'' registered = [OnFilesLimit]"
  "listenersOf ''fieldsLimit'' registered = [OnFieldsLimit]"
  "listenersOf ''close'' registered = []"
  by (simp_all add: listenersOf_def registered_def)

lemma listenersOf_Nil: "listenersOf ev [] = []"
  by (simp add: listenersOf_def)

lemma cleanup_listeners:
  "listeners s = registered \<or> listeners s = [] \<Longrightarrow> listeners (cleanup s) = []"
  by (auto simp add: cleanup_def removeListener_def registered_def)

lemma cleanup_frame:
  "promises (cleanup s) = promises s" "fieldsMap (cleanup s) = fieldsMap s"
  "calls (cleanup s) = calls s" "settled (cleanup s) = settled s"
  "fileHandler (cleanup s) = fileHandler s" "nullStream (cleanup s) = nullStream s"
  "cleanups (cleanup s) = Suc (cleanups s)" "uncaught (cleanup s) = uncaught s"
  "limits (cleanup s) = limits s" "piped (cleanup s) = piped s"
  by (simp_all add: cleanup_def)

lemma cleanup_req: "reqQuiet s \<Longrightarrow> reqListeners (cleanup s) = reqListeners s"
  by (auto simp add: reqQuiet_def cleanup_def removeListener_def)

lemma onEnd_frame:
  "listeners (onEnd err s) = listeners (cleanup s)"
  "reqListeners (onEnd err s) = reqListeners (cleanup s)"
  "fieldsMap (onEnd err s) = fieldsMap s" "calls (onEnd err s) = calls s"
  "settled (onEnd err s) = settled s" "fileHandler (onEnd err s) = fileHandler s"
  "nullStream (onEnd err s) = nullStream s" "cleanups (onEnd err s) = Suc (cleanups s)"
  by (simp_all add: onEnd_def Let_def cleanup_frame resolve_def reject_def split: option.split)

lemma onEnd_promises:
  "promises (onEnd err s) =
     settle (case err of Some e \<Rightarrow> Rejected e | None \<Rightarrow> Resolved (fieldsMap s)) (promises s)"
  by (simp add: onEnd_def Let_def cleanup_frame resolve_def reject_def split: option.split)

lemma limit_errors:
  "withInternalDetails [(''reason'', r)] (httpError 413 None) = limitError r"
  by (simp add: httpError_def limitError_def)

lemma emit_registered:
  assumes "listeners s = registered"
  shows "emit (Field n v nt vt enc mt) s = onField n v nt vt enc mt s"
    and "emit (File n st fname enc mt) s = onFile n st fname enc mt s"
    and "emit Finish s = onEnd None s"
    and "emit (ErrorEvent e) s = onEnd (Some e) s"
    and "emit PartsLimit s = onEnd (Some (limitError ''Reached parts limit'')) s"
    and "emit FilesLimit s = onEnd (Some (limitError ''Reached files limit'')) s"
    and "emit FieldsLimit s = onEnd (Some (limitError ''Reached fields limit'')) s"
    and "emit Close s = s"
  using assms
  by (simp_all add: emit_def listenersOf_registered onPartsLimit_def onFilesLimit_def
        onFieldsLimit_def limit_errors)

lemma emit_unregistered:
  assumes "listeners s = []"
  shows "emit ev s = (case ev of ErrorEvent e \<Rightarrow> s\<lparr> uncaught := uncaught s @ [e] \<rparr> | _ \<Rightarrow> s)"
  using assms by (cases ev) (simp_all add: emit_def listenersOf_Nil)

lemma emit_unregistered_frame:
  assumes "listeners s = []"
  shows "promises (emit ev s) = promises s" "cleanups (emit ev s) = cleanups s"
    "listeners (emit ev s) = []" "calls (emit ev s) = calls s"
    "reqListeners (emit ev s) = reqListeners s" "fieldsMap (emit ev s) = fieldsMap s"
    "fileHandler (emit ev s) = fileHandler s" "settled (emit ev s) = settled s"
    "nullStream (emit ev s) = nullStream s"
  using assms by (simp_all add: emit_unregistered split: event.split)

lemma reqQuiet_cleanup: "reqQuiet s \<Longrightarrow> reqQuiet (cleanup s)"
  by (auto simp add: reqQuiet_def cleanup_def removeListener_def)

lemma reqQuiet_onEnd: "reqQuiet s \<Longrightarrow> reqQuiet (onEnd err s)"
  using reqQuiet_cleanup by (simp add: reqQuiet_def onEnd_frame)

lemma reqClose_quiet: "reqQuiet s \<Longrightarrow> reqClose s = s"
  by (auto simp add: reqQuiet_def reqClose_def listenersOf_def)

lemma settle_Nil: "settle r [] = []"
  by (simp add: settle_def)



lemma length_settle: "length (settle r ps) = length ps"
  by (cases ps rule: rev_cases) (simp_all add: settle_def)

lemma run_simps:
  "run [] s = s" "run (a # as) s = run as (step a s)" "run (as @ bs) s = run bs (run as s)"
  by (simp_all add: run_def)

lemma onField_frame:
  "listeners (onField n v nt vt enc mt s) = listeners s"
  "reqListeners (onField n v nt vt enc mt s) = reqListeners s"
  "promises (onField n v nt vt enc mt s) = promises s"
  "calls (onField n v nt vt enc mt s) = calls s"
  "fileHandler (onField n v nt vt enc mt s) = fileHandler s"
  "cleanups (onField n v nt vt enc mt s) = cleanups s"
  by (simp_all add: onField_def)

lemma onFile_frame:
  "listeners (onFile n st fname enc mt s) = listeners s"
  "reqListeners (onFile n st fname enc mt s) = reqListeners s"
  "promises (onFile n st fname enc mt s) = promises s"
  "fileHandler (onFile n st fname enc mt s) = fileHandler s"
  "cleanups (onFile n st fname enc mt s) = cleanups s"
  "fileHandler s = None \<Longrightarrow> calls (onFile n st fname enc mt s) = calls s"
  by (simp_all add: onFile_def Let_def split: option.split)

lemma not_inFlight: "calls s = [] \<Longrightarrow> \<not> inFlight i s"
  by (simp add: inFlight_def)


section \<open>Invariants\<close>

lemma pristine_part:
  assumes "pristine s" and "isPart ev"
  shows "pristine (emit ev s)"
  using assms
  by (cases ev)
     (simp_all add: pristine_def emit_registered reqQuiet_def onField_def onFile_def)

lemma pristine_parts: "pristine s \<Longrightarrow> list_all isPart evs \<Longrightarrow> pristine (run (map Emit evs) s)"
  by (induction evs arbitrary: s) (simp_all add: run_simps pristine_part)

lemma pristine_new: "pristine (BusboyWrapper_new lim)"
  by (simp add: pristine_def reqQuiet_def new_listeners) (simp add: BusboyWrapper_new_def on_def)

lemma pristine_terminal:
  assumes "pristine s" and "isTerminal t"
  shows "detached (emit t s)" and "promises (emit t s) = []"
    and "cleanups (emit t s) = 1" and "uncaught (emit t s) = []"
proof -
  from assms(1) have reg: "listeners s = registered" by (simp add: pristine_def)
  from assms(1) have quiet: "reqQuiet (onEnd err s)" for err
    by (simp add: pristine_def reqQuiet_onEnd)
  have ended: "detached (onEnd err s) \<and> promises (onEnd err s) = []
      \<and> cleanups (onEnd err s) = 1 \<and> uncaught (onEnd err s) = []" for err
    using assms(1) quiet [of err]
    by (simp add: pristine_def detached_def onEnd_frame onEnd_promises settle_Nil cleanup_listeners)
       (simp add: onEnd_def Let_def cleanup_def resolve_def reject_def split: option.split)
  from assms(2) reg ended show "detached (emit t s)" by (cases t) (simp_all add: emit_registered)
  from assms(2) reg ended show "promises (emit t s) = []"
    by (cases t) (simp_all add: emit_registered)
  from assms(2) reg ended show "cleanups (emit t s) = 1"
    by (cases t) (simp_all add: emit_registered)
  from assms(2) reg ended show "uncaught (emit t s) = []"
    by (cases t) (simp_all add: emit_registered)
qed


lemma detached_step:
  assumes "detached s"
  shows "detached (step a s)"
proof (cases a)
  case (Parse fh)
  with assms show ?thesis by (simp add: detached_def parse_def reqQuiet_def)
next
  case (Emit ev)
  with assms show ?thesis by (simp add: detached_def reqQuiet_def emit_unregistered_frame)
next
  case ReqClose
  with assms show ?thesis by (simp add: detached_def reqClose_quiet)
next
  case (Fulfil i)
  with assms show ?thesis by (simp add: detached_def not_inFlight)
next
  case (Reject i r)
  with assms show ?thesis by (simp add: detached_def not_inFlight)
qed

lemma detached_run: "detached s \<Longrightarrow> detached (run as s)"
  by (induction as arbitrary: s) (simp_all add: run_simps detached_step)

lemma detached_step_length:
  assumes "detached s"
  shows "length (promises s) \<le> length (promises (step a s))"
  using assms
  by (cases a) (simp_all add: detached_def parse_def emit_unregistered_frame reqClose_quiet not_inFlight)

lemma detached_run_length: "detached s \<Longrightarrow> length (promises s) \<le> length (promises (run as s))"
proof (induction as arbitrary: s)
  case Nil
  show ?case by (simp add: run_simps)
next
  case (Cons a as)
  have "length (promises s) \<le> length (promises (step a s))"
    using Cons.prems by (rule detached_step_length)
  also have "\<dots> \<le> length (promises (run as (step a s)))"
    using Cons.prems by (intro Cons.IH detached_step)
  finally show ?case by (simp add: run_simps)
qed

lemma detached_related: "detached MultipartRelatedParser_new"
  by (simp add: detached_def reqQuiet_def MultipartRelatedParser_new_def)


lemma coherent_onEnd:
  assumes "coherent s"
  shows "coherent (onEnd err s)"
proof -
  from assms have "listeners s = registered \<or> listeners s = []" by (auto simp add: coherent_def)
  then have "listeners (onEnd err s) = []" by (simp add: onEnd_frame cleanup_listeners)
  moreover from assms have "reqQuiet (onEnd err s)" by (simp add: coherent_def reqQuiet_onEnd)
  ultimately show ?thesis by (simp add: coherent_def)
qed

lemma coherent_settled: "coherent s \<Longrightarrow> coherent (s\<lparr> settled := xs \<rparr>)"
  by (simp add: coherent_def reqQuiet_def)

lemma coherent_nullStream: "coherent s \<Longrightarrow> coherent (s\<lparr> nullStream := xs \<rparr>)"
  by (simp add: coherent_def reqQuiet_def)

lemma coherent_emit:
  assumes "coherent s"
  shows "coherent (emit ev s)"
proof (cases "listeners s = []")
  case True
  with assms show ?thesis by (simp add: coherent_def reqQuiet_def emit_unregistered_frame)
next
  case False
  with assms have reg: "listeners s = registered" by (auto simp add: coherent_def)
  show ?thesis
  proof (cases ev)
    case (Field n v nt vt enc mt)
    with assms reg show ?thesis
      by (simp add: emit_registered coherent_def reqQuiet_def onField_frame)
  next
    case (File n st fname enc mt)
    with assms reg show ?thesis
      by (simp add: emit_registered coherent_def reqQuiet_def onFile_frame)
  next
    case Close
    with assms reg show ?thesis by (simp add: emit_registered)
  qed (simp_all add: emit_registered reg coherent_onEnd assms)
qed

lemma coherent_step:
  assumes "coherent s"
  shows "coherent (step a s)"
proof (cases a)
  case (Parse fh)
  with assms show ?thesis by (simp add: coherent_def parse_def reqQuiet_def)
next
  case (Emit ev)
  with assms show ?thesis by (simp add: coherent_emit)
next
  case ReqClose
  with assms show ?thesis by (simp add: coherent_def reqClose_quiet)
next
  case (Fulfil i)
  with assms show ?thesis by (simp add: onFulfilled_def coherent_onEnd coherent_settled)
next
  case (Reject i r)
  with assms show ?thesis
    by (simp add: onRejected_def coherent_onEnd coherent_settled coherent_nullStream)
qed

lemma coherent_run: "coherent s \<Longrightarrow> coherent (run as s)"
  by (induction as arbitrary: s) (simp_all add: run_simps coherent_step)

lemma coherent_new: "coherent (BusboyWrapper_new lim)"
  using pristine_new [of lim] by (simp add: pristine_def coherent_def)

lemma coherent_req_onEnd: "coherent s \<Longrightarrow> reqListeners (onEnd err s) = reqListeners s"
  by (simp add: coherent_def onEnd_frame cleanup_req)

lemma coherent_req_emit:
  assumes "coherent s"
  shows "reqListeners (emit ev s) = reqListeners s"
proof (cases "listeners s = []")
  case True
  then show ?thesis by (simp add: emit_unregistered_frame)
next
  case False
  with assms have reg: "listeners s = registered" by (auto simp add: coherent_def)
  with assms show ?thesis
    by (cases ev) (simp_all add: emit_registered onField_frame onFile_frame coherent_req_onEnd)
qed

lemma coherent_req_step:
  assumes "coherent s"
  shows "reqListeners (step a s) = reqListeners s"
proof (cases a)
  case (Parse fh)
  then show ?thesis by (simp add: parse_def)
next
  case (Emit ev)
  with assms show ?thesis by (simp add: coherent_req_emit)
next
  case ReqClose
  with assms show ?thesis by (simp add: coherent_def reqClose_quiet)
next
  case (Fulfil i)
  with assms coherent_req_onEnd [OF coherent_settled [OF assms]] show ?thesis
    by (simp add: onFulfilled_def)
next
  case (Reject i r)
  with assms coherent_req_onEnd [OF coherent_nullStream [OF coherent_settled [OF assms]]] show ?thesis
    by (simp add: onRejected_def)
qed

lemma coherent_req_run: "coherent s \<Longrightarrow> reqListeners (run as s) = reqListeners s"
proof (induction as arbitrary: s)
  case Nil
  show ?case by (simp add: run_simps)
next
  case (Cons a as)
  from Cons.prems have "coherent (step a s)" by (rule coherent_step)
  then have "reqListeners (run as (step a s)) = reqListeners (step a s)" by (rule Cons.IH)
  with Cons.prems show ?case by (simp add: run_simps coherent_req_step)
qed















section \<open>Settlement\<close>







text \<open>
  Claim C6, as stated, fails: a file handler is called, the tokenizer reports an error,
  which rejects the promise of \<open>parse\<close>, and then the handler rejects with \<open>disk full\<close>.
  The promise stays rejected with the tokenizer's error, not with the handler's.
\<close>

theorem handler_failure_counterexample:
  "promises (run [Parse (Some 0),
                  Emit (File ''upload'' 7 ''a.bin'' ''binary'' ''application/octet-stream''),
                  Emit (ErrorEvent (Error (Message ''Unexpected end of multipart data''))),
                  Reject 0 (Some (Error (Message ''disk full'')))] (BusboyWrapper_new None))
     = [Rejected (Error (Message ''Unexpected end of multipart data''))]
   \<and> promises (run [Parse (Some 0),
                  Emit (File ''upload'' 7 ''a.bin'' ''binary'' ''application/octet-stream''),
                  Emit (ErrorEvent (Error (Message ''Unexpected end of multipart data''))),
                  Reject 0 (Some (Error (Message ''disk full'')))] (BusboyWrapper_new None))
     \<noteq> [Rejected (Error (Message ''disk full''))]"
  by (simp add: model_defs)

text \<open>
  Claim C6, amended. When the promise of a handler call in flight rejects, the stream of
  that call is piped into the null stream, in every state. If the promise of \<open>parse\<close> is
  still pending then and the handler rejected with an error \<open>e\<close>, the promise of
  \<open>parse\<close> is rejected with that same \<open>e\<close>; if \<open>parse\<close> was not called or its promise is
  settled already, the promises stay as they are.
\<close>

theorem handler_failure:
  assumes "inFlight i s"
  shows "nullStream (step (Reject i r) s) = nullStream s @ [callStream (calls s ! i)]
    \<and> (promises s \<noteq> [] \<and> last (promises s) = Pending \<longrightarrow>
         promises (step (Reject i (Some e)) s) = butlast (promises s) @ [Rejected e])
    \<and> (promises s = [] \<or> last (promises s) \<noteq> Pending \<longrightarrow>
         promises (step (Reject i r) s) = promises s)"
  using assms
  by (auto simp add: onRejected_def onEnd_frame onEnd_promises settle_def)

theorem handler_failure_witness:
  "inFlight 0 (run [Parse (Some 0),
        Emit (File ''upload'' 7 ''a.bin'' ''binary'' ''application/octet-stream'')]
       (BusboyWrapper_new None))
   \<and> nullStream (step (Reject 0 (Some (Error (Message ''disk full''))))
        (run [Parse (Some 0),
           Emit (File ''upload'' 7 ''a.bin'' ''binary'' ''application/octet-stream'')]
          (BusboyWrapper_new None))) = [7]
   \<and> promises (step (Reject 0 (Some (Error (Message ''disk full''))))
        (run [Parse (Some 0),
           Emit (File ''upload'' 7 ''a.bin'' ''binary'' ''application/octet-stream'')]
          (BusboyWrapper_new None))) = [Rejected (Error (Message ''disk full''))]"
proof -
  have h: "inFlight 0 (run [Parse (Some 0),
        Emit (File ''upload'' 7 ''a.bin'' ''binary'' ''application/octet-stream'')]
       (BusboyWrapper_new None))"
    by (simp add: model_defs)
  show ?thesis
    using h handler_failure [OF h, where r = "Some (Error (Message ''disk full''))"
        and e = "Error (Message ''disk full'')"]
    by (simp add: model_defs)
qed

text \<open>
  Claim C10. A \<open>BusboyWrapper\<close> is constructed and, before any call of \<open>parse\<close>, part
  events and then a terminal event \<open>t\<close> arrive. The terminal event settles nothing (there
  is no promise, the empty \<open>resolve\<close> and \<open>reject\<close> take it), nothing is thrown,
  \<open>cleanup\<close> runs and leaves no listener on the parser. Whatever happens after a later
  call of \<open>parse\<close>, the promise it returned, and every later one, stays pending.
\<close>

theorem terminal_before_parse:
  assumes "list_all isPart pre" and "isTerminal t"
  shows "promises (run (map Emit pre @ [Emit t]) (BusboyWrapper_new lim)) = []
    \<and> uncaught (run (map Emit pre @ [Emit t]) (BusboyWrapper_new lim)) = []
    \<and> cleanups (run (map Emit pre @ [Emit t]) (BusboyWrapper_new lim)) = 1
    \<and> listeners (run (map Emit pre @ [Emit t]) (BusboyWrapper_new lim)) = []
    \<and> promises (run (map Emit pre @ [Emit t] @ Parse fh # as) (BusboyWrapper_new lim)) \<noteq> []
    \<and> list_all isPending
        (promises (run (map Emit pre @ [Emit t] @ Parse fh # as) (BusboyWrapper_new lim)))"
proof -
  define s0 where "s0 = run (map Emit pre) (BusboyWrapper_new lim)"
  define s1 where "s1 = emit t s0"
  have f: "pristine s0"
    unfolding s0_def using pristine_new assms(1) by (rule pristine_parts)
  note t = pristine_terminal [OF f assms(2), folded s1_def]
  have d: "detached (parse fh s1)"
    using detached_step [OF t(1), of "Parse fh"] by simp
  have "length (promises (parse fh s1)) \<le> length (promises (run as (parse fh s1)))"
    using d by (rule detached_run_length)
  then have ne: "promises (run as (parse fh s1)) \<noteq> []"
    by (auto simp add: parse_def)
  have "detached (run as (parse fh s1))" using d by (rule detached_run)
  then have p: "list_all isPending (promises (run as (parse fh s1)))"
    by (simp add: detached_def)
  have r1: "run (map Emit pre @ [Emit t]) (BusboyWrapper_new lim) = s1"
    by (simp add: run_simps s0_def s1_def)
  have r2: "run (map Emit pre @ [Emit t] @ Parse fh # as) (BusboyWrapper_new lim)
              = run as (parse fh s1)"
    by (simp add: run_simps s0_def s1_def)
  from t ne p show ?thesis
    unfolding r1 r2 by (simp add: detached_def)
qed

theorem terminal_before_parse_witness:
  "list_all isPart [Field ''a'' ''1'' False False ''7bit'' ''text/plain'']
   \<and> isTerminal Finish
   \<and> listeners (run (map Emit [Field ''a'' ''1'' False False ''7bit'' ''text/plain'']
                       @ [Emit Finish]) (BusboyWrapper_new None)) = []
   \<and> promises (run (map Emit [Field ''a'' ''1'' False False ''7bit'' ''text/plain'']
         @ [Emit Finish] @ Parse (Some 0)
         # [Emit (File ''upload'' 7 ''a.bin'' ''binary'' ''application/octet-stream''),
            Fulfil 0, Emit Finish])
        (BusboyWrapper_new None)) = [Pending]"
  using terminal_before_parse
    [where pre = "[Field ''a'' ''1'' False False ''7bit'' ''text/plain'']" and t = Finish
       and fh = "Some 0" and lim = None
       and as = "[Emit (File ''upload'' 7 ''a.bin'' ''binary'' ''application/octet-stream''),
                  Fulfil 0, Emit Finish]"]
  by (simp add: model_defs)


section \<open>Where the code departs from the claims\<close>

text \<open>
  Claim C1 does not hold of the code. With one file part whose handler fulfils before
  the tokenizer has finished, the promise of \<open>parse\<close> is resolved at once, and a field
  that arrives afterwards is not recorded: the listeners are gone. With the tokenizer
  finishing while the handler call is still in flight, the promise is resolved as well.
\<close>

theorem early_resolution:
  "promises (run [Parse (Some 0),
                  Emit (File ''upload'' 7 ''a.bin'' ''binary'' ''application/octet-stream''),
                  Fulfil 0] (BusboyWrapper_new None))
     = [Resolved [(''upload'',
          Single (FileData 7 ''a.bin'' ''binary'' ''application/octet-stream''))]]
   \<and> promises (run [Parse (Some 0),
                  Emit (File ''upload'' 7 ''a.bin'' ''binary'' ''application/octet-stream''),
                  Emit Finish] (BusboyWrapper_new None))
     = [Resolved [(''upload'',
          Single (FileData 7 ''a.bin'' ''binary'' ''application/octet-stream''))]]
   \<and> inFlight 0 (run [Parse (Some 0),
                  Emit (File ''upload'' 7 ''a.bin'' ''binary'' ''application/octet-stream''),
                  Emit Finish] (BusboyWrapper_new None))
   \<and> fieldsMap (run [Parse (Some 0),
                  Emit (File ''upload'' 7 ''a.bin'' ''binary'' ''application/octet-stream''),
                  Fulfil 0,
                  Emit (Field ''title'' ''x'' False False ''7bit'' ''text/plain''),
                  Emit Finish] (BusboyWrapper_new None))
     = [(''upload'', Single (FileData 7 ''a.bin'' ''binary'' ''application/octet-stream''))]"
  by (simp add: model_defs)

text \<open>
  Claim C2 does not hold of the code. With \<open>files = 1\<close> the tokenizer emits \<open>file\<close> for
  the first file part and \<open>filesLimit\<close> at the second. When the handler's promise for
  the first file fulfils in between, \<open>parse\<close> resolves with that file and the limit event
  finds no listener; only when the limit event comes first is the promise rejected with
  the files-limit error.
\<close>

theorem files_limit_missed:
  "promises (run [Parse (Some 0),
                  Emit (File ''a'' 7 ''one.bin'' ''binary'' ''application/octet-stream''),
                  Fulfil 0, Emit FilesLimit, Emit Finish] (BusboyWrapper_new
                    (Some [filesKey \<mapsto> Some 1])))
     = [Resolved [(''a'',
          Single (FileData 7 ''one.bin'' ''binary'' ''application/octet-stream''))]]
   \<and> promises (run [Parse (Some 0),
                  Emit (File ''a'' 7 ''one.bin'' ''binary'' ''application/octet-stream''),
                  Emit FilesLimit, Fulfil 0, Emit Finish] (BusboyWrapper_new
                    (Some [filesKey \<mapsto> Some 1])))
     = [Rejected (limitError ''Reached files limit'')]"
  by (simp add: model_defs)

text \<open>
  Claim C7 does not hold of the code. Whatever happened to a \<open>BusboyWrapper\<close>, the
  request still carries the arrow function registered for \<open>close\<close>, and the request
  closing changes nothing: after \<open>parse\<close> and \<open>close\<close> the seven listeners are in place,
  \<open>cleanup\<close> has not run and the promise is pending; after \<open>parse\<close> and \<open>finish\<close> the
  promise is resolved and the request's listener is still there.
\<close>

theorem close_does_nothing:
  "reqListeners (run as (BusboyWrapper_new lim)) = [(''close'', CloseArrow)]
   \<and> step ReqClose (run as (BusboyWrapper_new lim)) = run as (BusboyWrapper_new lim)
   \<and> listeners (run [Parse (Some 0), ReqClose] (BusboyWrapper_new None)) = registered
   \<and> cleanups (run [Parse (Some 0), ReqClose] (BusboyWrapper_new None)) = 0
   \<and> promises (run [Parse (Some 0), ReqClose] (BusboyWrapper_new None)) = [Pending]
   \<and> reqListeners (run [Parse (Some 0), Emit Finish] (BusboyWrapper_new None))
       = [(''close'', CloseArrow)]
   \<and> promises (run [Parse (Some 0), Emit Finish] (BusboyWrapper_new None)) = [Resolved []]"
proof -
  have s: "coherent (run as (BusboyWrapper_new lim))" using coherent_new by (rule coherent_run)
  have "reqListeners (run as (BusboyWrapper_new lim)) = reqListeners (BusboyWrapper_new lim)"
    using coherent_new by (rule coherent_req_run)
  then have 1: "reqListeners (run as (BusboyWrapper_new lim)) = [(''close'', CloseArrow)]"
    by (simp add: BusboyWrapper_new_def on_def)
  from s have 2: "step ReqClose (run as (BusboyWrapper_new lim)) = run as (BusboyWrapper_new lim)"
    by (simp add: coherent_def reqClose_quiet)
  have 3: "listeners (run [Parse (Some 0), ReqClose] (BusboyWrapper_new None)) = registered"
    by (simp add: model_defs)
  have 4: "cleanups (run [Parse (Some 0), ReqClose] (BusboyWrapper_new None)) = 0"
    by (simp add: model_defs)
  have 5: "promises (run [Parse (Some 0), ReqClose] (BusboyWrapper_new None)) = [Pending]"
    by (simp add: model_defs)
  have 6: "reqListeners (run [Parse (Some 0), Emit Finish] (BusboyWrapper_new None))
       = [(''close'', CloseArrow)]"
    by (simp add: model_defs)
  have 7: "promises (run [Parse (Some 0), Emit Finish] (BusboyWrapper_new None)) = [Resolved []]"
    by (simp add: model_defs)
  from 1 2 3 4 5 6 7 show ?thesis by simp
qed

text \<open>
  Claim C9 does not hold of the code. On the same events, a field and then \<open>finish\<close>,
  \<open>BusboyWrapper\<close> resolves with the field and \<open>MultipartRelatedParser\<close> stays pending;
  no sequence of actions ever settles a promise of \<open>MultipartRelatedParser\<close>.
\<close>

theorem related_never_settles:
  "promises (run [Parse (Some 0), Emit (Field ''a'' ''1'' False False ''7bit'' ''text/plain''),
                  Emit Finish] (BusboyWrapper_new None))
     = [Resolved [(''a'', Single (FieldData ''1'' False False ''7bit'' ''text/plain''))]]
   \<and> promises (run [Parse (Some 0), Emit (Field ''a'' ''1'' False False ''7bit'' ''text/plain''),
                    Emit Finish] MultipartRelatedParser_new)
     = [Pending]
   \<and> list_all isPending (promises (run as MultipartRelatedParser_new))"
proof -
  have 1: "promises (run [Parse (Some 0),
                  Emit (Field ''a'' ''1'' False False ''7bit'' ''text/plain''),
                  Emit Finish] (BusboyWrapper_new None))
     = [Resolved [(''a'', Single (FieldData ''1'' False False ''7bit'' ''text/plain''))]]"
    by (simp add: model_defs)
  have 2: "promises (run [Parse (Some 0),
                    Emit (Field ''a'' ''1'' False False ''7bit'' ''text/plain''),
                    Emit Finish] MultipartRelatedParser_new)
     = [Pending]"
    by (simp add: model_defs)
  have "detached (run as MultipartRelatedParser_new)" using detached_related by (rule detached_run)
  then have 3: "list_all isPending (promises (run as MultipartRelatedParser_new))"
    by (simp add: detached_def)
  from 1 2 3 show ?thesis by simp
qed

end
